theory Spec2Isabelle
  imports Complex_Main "HOL-Library.Multiset" "HOL-Library.Sublist"
begin

section \<open>Cards and the deck service\<close>

text \<open>
  A card is the object \<^verbatim>\<open>{ suit, rank, value }\<close> that \<^verbatim>\<open>DeckService.createDeck\<close>
  pushes: suit and rank are strings, the value is the number used in summation.
\<close>

record card =
  suit :: string
  rank :: string
  "value" :: int

abbreviation Card :: "string \<Rightarrow> string \<Rightarrow> int \<Rightarrow> card" where
  "Card s r v \<equiv> \<lparr>suit = s, rank = r, value = v\<rparr>"

text \<open>The two arrays set up by the constructor of \<^verbatim>\<open>DeckService\<close>.\<close>

definition suits :: "string list" where
  "suits = [''hearts'', ''diamonds'', ''clubs'', ''spades'']"

definition ranks :: "string list" where
  "ranks = [''A'', ''2'', ''3'', ''4'', ''5'', ''6'', ''7'']
             @ [''8'', ''9'', ''10'', ''J'', ''Q'', ''K'']"

text \<open>
  \<^verbatim>\<open>parseInt(rank)\<close>, for the strings it is called on: it reads the leading decimal
  digits. On a string that does not start with a digit JavaScript returns NaN, which an
  integer cannot hold; the model gives 0 there (\<open>parseDigits 0\<close> consumes nothing), and
  \<open>ranks_parse\<close> below shows that no rank of the deck reaches that case.
  White space, sign and radix prefixes are not modelled.
\<close>

definition digitValue :: "char \<Rightarrow> int option" where
  "digitValue c = map_of
     [(CHR ''0'', 0), (CHR ''1'', 1), (CHR ''2'', 2), (CHR ''3'', 3), (CHR ''4'', 4),
      (CHR ''5'', 5), (CHR ''6'', 6), (CHR ''7'', 7), (CHR ''8'', 8), (CHR ''9'', 9)] c"

fun parseDigits :: "int \<Rightarrow> string \<Rightarrow> int" where
  "parseDigits acc [] = acc"
| "parseDigits acc (c # cs) =
     (case digitValue c of None \<Rightarrow> acc | Some d \<Rightarrow> parseDigits (10 * acc + d) cs)"

definition parseInt :: "string \<Rightarrow> int" where
  "parseInt s = parseDigits 0 s"

definition isDecimal :: "string \<Rightarrow> bool" where
  "isDecimal s = (s \<noteq> [] \<and> list_all (\<lambda>c. digitValue c \<noteq> None) s)"

text \<open>
  \<^verbatim>\<open>getCardValue(rank)\<close>: an Ace initially counts as 11, the court cards as 10, every
  other rank as the number it spells.
\<close>

definition getCardValue :: "string \<Rightarrow> int" where
  "getCardValue r =
     (if r = ''A'' then 11
      else if r \<in> set [''J'', ''Q'', ''K''] then 10
      else parseInt r)"

text \<open>
  The nested loops of \<^verbatim>\<open>createDeck\<close>, before the shuffle: for each suit, for each
  rank, push the card.
\<close>

definition orderedDeck :: "card list" where
  "orderedDeck =
     concat (map (\<lambda>s. map (\<lambda>r. Card s r (getCardValue r)) ranks) suits)"

text \<open>
  \<^verbatim>\<open>shuffleDeck\<close>: the loop \<^verbatim>\<open>for (let i = shuffled.length - 1; i > 0; i--)\<close> with
  \<^verbatim>\<open>j = Math.floor(Math.random() * (i + 1))\<close> and the swap of positions \<open>i\<close> and \<open>j\<close>.
  The random source is a parameter: \<open>random i\<close> is the number \<^verbatim>\<open>Math.random()\<close>
  returns in the iteration with index \<open>i\<close>. The destructuring assignment reads both
  elements first, then writes position \<open>i\<close>, then position \<open>j\<close>.
\<close>

function shuffleLoop :: "(nat \<Rightarrow> real) \<Rightarrow> nat \<Rightarrow> 'a list \<Rightarrow> 'a list" where
  "shuffleLoop random i shuffled =
     (if i > 0 then
        (let j = nat \<lfloor>random i * real (i + 1)\<rfloor>
         in shuffleLoop random (i - 1) (shuffled[i := shuffled ! j, j := shuffled ! i]))
      else shuffled)"
  by pat_completeness auto
termination
  by (relation "measure (\<lambda>(random, i, shuffled). i)") auto

declare shuffleLoop.simps [simp del]

definition shuffleDeck :: "(nat \<Rightarrow> real) \<Rightarrow> 'a list \<Rightarrow> 'a list" where
  "shuffleDeck random d = shuffleLoop random (length d - 1) d"

definition createDeck :: "(nat \<Rightarrow> real) \<Rightarrow> card list" where
  "createDeck random = shuffleDeck random orderedDeck"

text \<open>
  What \<^verbatim>\<open>Math.random\<close> promises: a number in the half-open interval from 0 to 1.
\<close>

definition validRandom :: "(nat \<Rightarrow> real) \<Rightarrow> bool" where
  "validRandom random = (\<forall>i. 0 \<le> random i \<and> random i < 1)"

text \<open>
  \<^verbatim>\<open>dealCards(deck, count)\<close> is \<^verbatim>\<open>deck.splice(0, count)\<close>: it returns the removed front
  of the array and leaves the rest in \<open>deck\<close>. The model returns both, the dealt cards
  first. \<^verbatim>\<open>splice\<close> never raises: a count beyond the length removes what is there.
\<close>

definition dealCards :: "'a list \<Rightarrow> nat \<Rightarrow> 'a list \<times> 'a list" where
  "dealCards d cnt = (take cnt d, drop cnt d)"

section \<open>The Blackjack service\<close>

text \<open>
  \<^verbatim>\<open>calculateHandScore\<close>: the \<^verbatim>\<open>for\<close> loop sums the values and counts the cards of
  rank \<^verbatim>\<open>'A'\<close>; the \<^verbatim>\<open>while\<close> loop then takes 10 off per counted Ace while the
  score is above 21.
\<close>

definition sumCards :: "card list \<Rightarrow> int \<times> nat" where
  "sumCards hand =
     foldl (\<lambda>(score, aceCount) c.
              (score + value c, if rank c = ''A'' then aceCount + 1 else aceCount))
           (0, 0) hand"

function adjustAces :: "int \<Rightarrow> nat \<Rightarrow> int" where
  "adjustAces score aceCount =
     (if score > 21 \<and> aceCount > 0 then adjustAces (score - 10) (aceCount - 1) else score)"
  by pat_completeness auto
termination
  by (relation "measure (\<lambda>(score, aceCount). aceCount)") auto

declare adjustAces.simps [simp del]

definition calculateHandScore :: "card list \<Rightarrow> int" where
  "calculateHandScore hand = (case sumCards hand of (score, aceCount) \<Rightarrow> adjustAces score aceCount)"

text \<open>The game state object that \<^verbatim>\<open>startNewGame\<close> returns and the transitions spread.\<close>

record gameState =
  deck :: "card list"
  playerHand :: "card list"
  dealerHand :: "card list"
  playerScore :: int
  dealerScore :: int
  isPlayerTurn :: bool
  isGameOver :: bool
  gameStatus :: string

text \<open>
  The exceptions. The source raises none by a \<^verbatim>\<open>throw\<close> of its own: the only one that
  can arise in the service is the \<^verbatim>\<open>TypeError\<close> of reading \<^verbatim>\<open>card.value\<close> from
  \<^verbatim>\<open>undefined\<close>, when a card is taken from an exhausted deck.
  \<open>InsufficientCardsError\<close> and \<open>InvalidActionError\<close> are the two errors that the
  specification names; no path of the source produces them.
\<close>

datatype error = TypeError | InsufficientCardsError | InvalidActionError

definition DEALER_STAND_THRESHOLD :: int where
  "DEALER_STAND_THRESHOLD = 17"

definition startNewGame :: "(nat \<Rightarrow> real) \<Rightarrow> gameState" where
  "startNewGame random =
     (let d0 = createDeck random;
          (pHand, d1) = dealCards d0 2;
          (dHand, d2) = dealCards d1 2
      in \<lparr>deck = d2, playerHand = pHand, dealerHand = dHand,
          playerScore = calculateHandScore pHand,
          dealerScore = calculateHandScore dHand,
          isPlayerTurn = True, isGameOver = False, gameStatus = ''active''\<rparr>)"

text \<open>
  \<^verbatim>\<open>playerHit\<close>. \<^verbatim>\<open>dealCards(deck, 1)[0]\<close> is \<^verbatim>\<open>undefined\<close> on an empty deck; it is
  pushed onto the hand and \<^verbatim>\<open>calculateHandScore\<close> then raises on its value.
  There is no check of \<open>isGameOver\<close> in the source.
\<close>

definition playerHit :: "gameState \<Rightarrow> error + gameState" where
  "playerHit g =
     (case dealCards (deck g) 1 of
        ([], d') \<Rightarrow> Inl TypeError
      | (newCard # _, d') \<Rightarrow>
          (let pHand = playerHand g @ [newCard];
               pScore = calculateHandScore pHand
           in Inr (g\<lparr>deck := d', playerHand := pHand, playerScore := pScore,
                     isGameOver := (pScore > 21),
                     gameStatus := (if pScore > 21 then ''player_bust'' else ''active'')\<rparr>)))"

text \<open>
  The dealer's loop of \<^verbatim>\<open>playerStand\<close>: while the score is below the threshold, take
  one card, push it, score the hand again. Each round consumes a card of the deck, and on
  an empty deck the pushed \<^verbatim>\<open>undefined\<close> makes \<^verbatim>\<open>calculateHandScore\<close> raise.
  The result is the deck, the dealer's hand and the dealer's score at the exit.
\<close>

function dealerLoop :: "card list \<Rightarrow> card list \<Rightarrow> int \<Rightarrow> error + (card list \<times> card list \<times> int)" where
  "dealerLoop d dHand dScore =
     (if dScore < DEALER_STAND_THRESHOLD then
        (case dealCards d 1 of
           ([], d') \<Rightarrow> Inl TypeError
         | (newCard # _, d') \<Rightarrow>
             dealerLoop d' (dHand @ [newCard]) (calculateHandScore (dHand @ [newCard])))
      else Inr (d, dHand, dScore))"
  by pat_completeness auto
termination
proof (relation "measure (\<lambda>(d, dHand, dScore). length d)")
  fix d :: "card list" and dHand :: "card list" and dScore :: int
    and x y :: "card list" and newCard :: card and rest :: "card list"
  assume "(x, y) = dealCards d 1" and "x = newCard # rest"
  then show "((y, dHand @ [newCard], calculateHandScore (dHand @ [newCard])), (d, dHand, dScore))
      \<in> measure (\<lambda>(d, dHand, dScore). length d)"
    by (cases d) (auto simp: dealCards_def)
qed simp

declare dealerLoop.simps [simp del]

text \<open>
  \<^verbatim>\<open>playerStand\<close>. The player's score is the stored field, the dealer's score is
  computed from the dealer's hand before the loop. After the loop the outcome is
  decided by the chain of comparisons, and \<open>isGameOver\<close> is \<open>true\<close> on every path
  that returns.
\<close>

definition playerStand :: "gameState \<Rightarrow> error + gameState" where
  "playerStand g =
     (case dealerLoop (deck g) (dealerHand g) (calculateHandScore (dealerHand g)) of
        Inl e \<Rightarrow> Inl e
      | Inr (d', dHand, dScore) \<Rightarrow>
          Inr (g\<lparr>deck := d', dealerHand := dHand, dealerScore := dScore,
                  isPlayerTurn := False, isGameOver := True,
                  gameStatus :=
                    (if dScore > 21 then ''dealer_bust''
                     else if dScore > playerScore g then ''dealer_win''
                     else if playerScore g > dScore then ''player_win''
                     else ''tie'')\<rparr>))"

text \<open>
  \<^verbatim>\<open>determineGameResult\<close>: the \<^verbatim>\<open>switch\<close> over the status string; \<open>None\<close> is the
  \<^verbatim>\<open>null\<close> of the default branch.
\<close>

definition determineGameResult :: "string \<Rightarrow> string option" where
  "determineGameResult st =
     (if st = ''player_bust'' \<or> st = ''dealer_win'' then Some ''loss''
      else if st = ''dealer_bust'' \<or> st = ''player_win'' then Some ''win''
      else if st = ''tie'' then Some ''tie''
      else None)"

section \<open>Notions used in the statements\<close>

text \<open>The sum of the assigned values of a hand, and the number of its Aces.\<close>

definition valueSum :: "card list \<Rightarrow> int" where
  "valueSum hand = sum_list (map value hand)"

definition numAces :: "card list \<Rightarrow> nat" where
  "numAces hand = length (filter (\<lambda>c. rank c = ''A'') hand)"

text \<open>The total of a hand with every Ace counted as 1.\<close>

definition hardTotal :: "card list \<Rightarrow> int" where
  "hardTotal hand = valueSum hand - 10 * int (numAces hand)"

text \<open>A card of the standard deck: one of the 52 that \<^verbatim>\<open>createDeck\<close> builds.\<close>

definition validCard :: "card \<Rightarrow> bool" where
  "validCard c = (suit c \<in> set suits \<and> rank c \<in> set ranks \<and> value c = getCardValue (rank c))"

text \<open>The (suit, rank) pair that identifies a card.\<close>

definition cardKey :: "card \<Rightarrow> string \<times> string" where
  "cardKey c = (suit c, rank c)"

text \<open>
  The deal operation as the specification words it: it fails with
  \<open>InsufficientCardsError\<close> when the count exceeds the cards that remain, and otherwise
  returns the first \<open>cnt\<close> cards and the remaining suffix.
\<close>

definition deal_spec :: "'a list \<Rightarrow> nat \<Rightarrow> error + ('a list \<times> 'a list)" where
  "deal_spec d cnt =
     (if cnt > length d then Inl InsufficientCardsError else Inr (take cnt d, drop cnt d))"

text \<open>
  Sequences of player actions on a state: the run stops at the first action that raises.
\<close>

datatype action = Hit | Stand

fun applyAction :: "action \<Rightarrow> gameState \<Rightarrow> error + gameState" where
  "applyAction Hit g = playerHit g"
| "applyAction Stand g = playerStand g"

fun play :: "action list \<Rightarrow> gameState \<Rightarrow> error + gameState" where
  "play [] g = Inr g"
| "play (a # as) g = (case applyAction a g of Inl e \<Rightarrow> Inl e | Inr g' \<Rightarrow> play as g')"

section \<open>Scoring a hand\<close>

lemma sumCards_foldl:
  "foldl (\<lambda>(score, aceCount) c.
              (score + value c, if rank c = ''A'' then aceCount + 1 else aceCount))
           (s, a) hand = (s + valueSum hand, a + numAces hand)"
  by (induction hand arbitrary: s a) (auto simp: valueSum_def numAces_def)

lemma sumCards_eq: "sumCards hand = (valueSum hand, numAces hand)"
  by (simp add: sumCards_def sumCards_foldl)

lemma adjustAces_char:
  "\<exists>k. k \<le> a \<and> adjustAces s a = s - 10 * int k
       \<and> (\<forall>j<k. s - 10 * int j > 21) \<and> (k < a \<longrightarrow> s - 10 * int k \<le> 21)"
proof (induction s a rule: adjustAces.induct)
  case (1 score aceCount)
  show ?case
  proof (cases "score > 21 \<and> aceCount > 0")
    case True
    from "1.IH" [OF True] obtain k where k: "k \<le> aceCount - 1"
      "adjustAces (score - 10) (aceCount - 1) = score - 10 - 10 * int k"
      "\<forall>j<k. score - 10 - 10 * int j > 21"
      "k < aceCount - 1 \<longrightarrow> score - 10 - 10 * int k \<le> 21"
      by blast
    have less: "score - 10 * int j > 21" if "j < Suc k" for j
    proof (cases j)
      case 0
      with True show ?thesis by simp
    next
      case (Suc j')
      with that k(3) have "score - 10 - 10 * int j' > 21" by simp
      with Suc show ?thesis by simp
    qed
    have "adjustAces score aceCount = score - 10 * int (Suc k)"
      using True k(2) by (subst adjustAces.simps) simp
    moreover have "Suc k \<le> aceCount" using True k(1) by arith
    moreover have "Suc k < aceCount \<longrightarrow> score - 10 * int (Suc k) \<le> 21"
      using k(4) by auto arith?
    ultimately show ?thesis using less by blast
  next
    case False
    then have "adjustAces score aceCount = score"
      by (subst adjustAces.simps) auto
    with False show ?thesis
      by (intro exI [of _ 0]) auto
  qed
qed


lemma calculateHandScore_char:
  "\<exists>k. k \<le> numAces hand \<and> calculateHandScore hand = valueSum hand - 10 * int k
       \<and> (\<forall>j<k. valueSum hand - 10 * int j > 21)
       \<and> (k < numAces hand \<longrightarrow> valueSum hand - 10 * int k \<le> 21)"
  using adjustAces_char [of "numAces hand" "valueSum hand"]
  by (simp add: calculateHandScore_def sumCards_eq)

lemma hardTotal_aces_as_one:
  "\<forall>c\<in>set hand. rank c = ''A'' \<longrightarrow> value c = 11 \<Longrightarrow>
   hardTotal hand = (\<Sum>c\<leftarrow>hand. if rank c = ''A'' then 1 else value c)"
  by (induction hand) (auto simp: hardTotal_def valueSum_def numAces_def)

text \<open>
  Claim C1. For every hand, \<open>calculateHandScore\<close> returns the sum of the cards'
  values less 10 for each of \<open>k\<close> Aces, where \<open>k\<close> is fixed by the loop: every
  total before the \<open>k\<close>-th reduction was above 21, and the reductions stop short of the
  number of Aces only when the score is at most 21. Hence a hand without Aces, or one
  whose sum is at most 21, scores its plain sum; a hand that is above 21 even with every
  Ace reduced scores that total; and a hand that can stay at or below 21 scores the
  largest total not above 21 that reducing some of its Aces gives. When every Ace
  carries the value 11, the fully reduced total is the hand with every Ace counted as 1.
\<close>

theorem calculateHandScore_reduces_per_ace:
  "(\<exists>k. k \<le> numAces hand \<and> calculateHandScore hand = valueSum hand - 10 * int k
        \<and> (\<forall>j<k. valueSum hand - 10 * int j > 21)
        \<and> (k < numAces hand \<longrightarrow> calculateHandScore hand \<le> 21))
   \<and> (numAces hand = 0 \<longrightarrow> calculateHandScore hand = valueSum hand)
   \<and> (valueSum hand \<le> 21 \<longrightarrow> calculateHandScore hand = valueSum hand)
   \<and> (hardTotal hand > 21 \<longrightarrow> calculateHandScore hand = hardTotal hand)
   \<and> (hardTotal hand \<le> 21 \<longrightarrow> calculateHandScore hand \<le> 21
        \<and> (\<forall>j. j \<le> numAces hand \<and> valueSum hand - 10 * int j \<le> 21
               \<longrightarrow> valueSum hand - 10 * int j \<le> calculateHandScore hand))
   \<and> ((\<forall>c\<in>set hand. rank c = ''A'' \<longrightarrow> value c = 11) \<longrightarrow>
        hardTotal hand = (\<Sum>c\<leftarrow>hand. if rank c = ''A'' then 1 else value c))"
proof -
  obtain k where k: "k \<le> numAces hand"
    "calculateHandScore hand = valueSum hand - 10 * int k"
    "\<forall>j<k. valueSum hand - 10 * int j > 21"
    "k < numAces hand \<longrightarrow> valueSum hand - 10 * int k \<le> 21"
    using calculateHandScore_char by blast
  have p1: "\<exists>k. k \<le> numAces hand \<and> calculateHandScore hand = valueSum hand - 10 * int k
        \<and> (\<forall>j<k. valueSum hand - 10 * int j > 21)
        \<and> (k < numAces hand \<longrightarrow> calculateHandScore hand \<le> 21)"
    using k by auto
  have p2: "numAces hand = 0 \<longrightarrow> calculateHandScore hand = valueSum hand"
    using k(1,2) by auto
  have k0: "k = 0" if "valueSum hand \<le> 21"
  proof (rule ccontr)
    assume "k \<noteq> 0"
    then have "0 < k" by simp
    with k(3) have "valueSum hand - 10 * int 0 > 21" by blast
    with that show False by simp
  qed
  have p3: "valueSum hand \<le> 21 \<longrightarrow> calculateHandScore hand = valueSum hand"
    using k0 k(2) by auto
  have p4: "hardTotal hand > 21 \<longrightarrow> calculateHandScore hand = hardTotal hand"
  proof
    assume h: "hardTotal hand > 21"
    have "\<not> k < numAces hand"
    proof
      assume lt: "k < numAces hand"
      with k(4) have "valueSum hand - 10 * int k \<le> 21" by simp
      moreover from lt have "10 * int k \<le> 10 * int (numAces hand)" by simp
      ultimately show False using h by (simp add: hardTotal_def)
    qed
    with k(1) have "k = numAces hand" by simp
    with k(2) show "calculateHandScore hand = hardTotal hand" by (simp add: hardTotal_def)
  qed
  have p5a: "calculateHandScore hand \<le> 21" if "hardTotal hand \<le> 21"
  proof (cases "k < numAces hand")
    case True
    with k(2,4) show ?thesis by simp
  next
    case False
    with k(1) have "k = numAces hand" by simp
    with k(2) that show ?thesis by (simp add: hardTotal_def)
  qed
  have p5b: "valueSum hand - 10 * int j \<le> calculateHandScore hand"
    if "valueSum hand - 10 * int j \<le> 21" for j
  proof -
    have "\<not> j < k" using k(3) that by force
    then have "int k \<le> int j" by simp
    with k(2) show ?thesis by simp
  qed
  from p1 p2 p3 p4 p5a p5b hardTotal_aces_as_one [of hand] show ?thesis
    by blast
qed

theorem calculateHandScore_reduces_per_ace_witness:
  "calculateHandScore
     [Card ''hearts'' ''A'' 11,
      Card ''spades'' ''A'' 11,
      Card ''clubs'' ''9'' 9] = 21
   \<and> valueSum
     [Card ''hearts'' ''A'' 11,
      Card ''spades'' ''A'' 11,
      Card ''clubs'' ''9'' 9] = 31
   \<and> hardTotal
     [Card ''hearts'' ''A'' 11,
      Card ''spades'' ''A'' 11,
      Card ''clubs'' ''9'' 9] = 11"
  using calculateHandScore_reduces_per_ace
    [of "[Card ''hearts'' ''A'' 11,
      Card ''spades'' ''A'' 11,
      Card ''clubs'' ''9'' 9]"]
  by (simp add: hardTotal_def valueSum_def numAces_def calculateHandScore_def sumCards_def
      adjustAces.simps)

section \<open>Classifying the result\<close>

text \<open>
  Claim C9. \<open>determineGameResult\<close> maps the six status values as follows:
  \<open>player_bust\<close> and \<open>dealer_win\<close> to \<open>loss\<close>, \<open>dealer_bust\<close> and
  \<open>player_win\<close> to \<open>win\<close>, \<open>tie\<close> to \<open>tie\<close>, and \<open>active\<close> to no result
  (the \<^verbatim>\<open>null\<close> of the default branch, which JavaScript's \<^verbatim>\<open>==\<close> equates with
  \<^verbatim>\<open>undefined\<close>). It is a function of the status alone and defined on every status.
\<close>

theorem determineGameResult_table:
  "determineGameResult ''player_bust'' = Some ''loss''
   \<and> determineGameResult ''dealer_win'' = Some ''loss''
   \<and> determineGameResult ''dealer_bust'' = Some ''win''
   \<and> determineGameResult ''player_win'' = Some ''win''
   \<and> determineGameResult ''tie'' = Some ''tie''
   \<and> determineGameResult ''active'' = None"
  by (simp add: determineGameResult_def)

section \<open>Dealing\<close>

text \<open>
  Claim C5, as stated, fails on the source: \<open>dealCards\<close> is a bare \<^verbatim>\<open>splice\<close> and
  returns normally when asked for more cards than remain. Asked for one card of an empty
  deck it returns the empty list, where the specified operation fails with
  \<open>InsufficientCardsError\<close>.
\<close>

theorem dealCards_never_fails_counterexample:
  "dealCards ([] :: card list) 1 = ([], [])
   \<and> deal_spec ([] :: card list) 1 = Inl InsufficientCardsError
   \<and> Inr (dealCards ([] :: card list) 1) \<noteq> deal_spec ([] :: card list) 1"
  by (simp add: dealCards_def deal_spec_def)

text \<open>
  Claim C5, amended. For every deck and every count, \<open>dealCards\<close> returns normally: it
  removes and returns the first \<open>cnt\<close> cards and leaves the remaining suffix. When the
  count does not exceed the cards that remain this is the specified result, exactly
  \<open>cnt\<close> cards; when it exceeds them, all remaining cards are returned (fewer than
  \<open>cnt\<close>) and the deck is left empty.
\<close>

theorem dealCards_splice:
  "dealCards d cnt = (take cnt d, drop cnt d)
   \<and> fst (dealCards d cnt) @ snd (dealCards d cnt) = d
   \<and> length (fst (dealCards d cnt)) = min cnt (length d)
   \<and> (cnt \<le> length d \<longrightarrow>
        Inr (dealCards d cnt) = deal_spec d cnt \<and> length (fst (dealCards d cnt)) = cnt)
   \<and> (cnt > length d \<longrightarrow> dealCards d cnt = (d, []))"
  by (auto simp: dealCards_def deal_spec_def)

theorem dealCards_splice_witness:
  "dealCards [1 :: nat, 2, 3] 2 = ([1, 2], [3])
   \<and> Inr (dealCards [1 :: nat, 2, 3] 2) = deal_spec [1 :: nat, 2, 3] 2
   \<and> dealCards [1 :: nat, 2, 3] 5 = ([1, 2, 3], [])"
  using dealCards_splice [of "[1 :: nat, 2, 3]" 2] dealCards_splice [of "[1 :: nat, 2, 3]" 5]
  by (simp add: dealCards_def)

section \<open>The hit transition\<close>

lemma playerHit_Cons:
  "deck g = c # rest \<Longrightarrow>
   playerHit g =
     Inr (g\<lparr>deck := rest, playerHand := playerHand g @ [c],
            playerScore := calculateHandScore (playerHand g @ [c]),
            isGameOver := (calculateHandScore (playerHand g @ [c]) > 21),
            gameStatus := (if calculateHandScore (playerHand g @ [c]) > 21
                           then ''player_bust'' else ''active'')\<rparr>)"
  by (simp add: playerHit_def dealCards_def Let_def)

lemma playerHit_Nil: "deck g = [] \<Longrightarrow> playerHit g = Inl TypeError"
  by (simp add: playerHit_def dealCards_def)

text \<open>
  Claim C3. On every state whose deck is not empty, \<open>playerHit\<close> returns a state in
  which the front card of the deck has been removed and appended to the player's hand, and
  \<open>playerScore\<close> is the score of that new hand. If the new score is above 21 the state
  has \<open>isGameOver\<close> set and status \<open>player_bust\<close>; otherwise \<open>isGameOver\<close> is false and
  the status is \<open>active\<close>. \<open>isPlayerTurn\<close> and the dealer's hand and score are those of
  the input.
\<close>

theorem playerHit_deals_one:
  assumes "deck g = c # rest"
  shows "\<exists>g'. playerHit g = Inr g'
      \<and> deck g' = rest
      \<and> playerHand g' = playerHand g @ [c]
      \<and> playerScore g' = calculateHandScore (playerHand g')
      \<and> (if playerScore g' > 21
          then isGameOver g' \<and> gameStatus g' = ''player_bust''
          else \<not> isGameOver g' \<and> gameStatus g' = ''active'')
      \<and> isPlayerTurn g' = isPlayerTurn g
      \<and> dealerHand g' = dealerHand g
      \<and> dealerScore g' = dealerScore g"
  using playerHit_Cons [OF assms] by simp

theorem playerHit_deals_one_witness:
  "playerHit \<lparr>deck = [Card ''clubs'' ''6'' 6,
                       Card ''clubs'' ''2'' 2],
              playerHand = [Card ''hearts'' ''K'' 10,
                            Card ''spades'' ''8'' 8],
              dealerHand = [Card ''hearts'' ''5'' 5,
                            Card ''spades'' ''7'' 7],
              playerScore = 18, dealerScore = 12,
              isPlayerTurn = True, isGameOver = False, gameStatus = ''active''\<rparr>
   = Inr \<lparr>deck = [Card ''clubs'' ''2'' 2],
          playerHand = [Card ''hearts'' ''K'' 10,
                        Card ''spades'' ''8'' 8,
                        Card ''clubs'' ''6'' 6],
          dealerHand = [Card ''hearts'' ''5'' 5,
                        Card ''spades'' ''7'' 7],
          playerScore = 24, dealerScore = 12,
          isPlayerTurn = True, isGameOver = True, gameStatus = ''player_bust''\<rparr>"
  using playerHit_deals_one
    [of "\<lparr>deck = [Card ''clubs'' ''6'' 6,
                       Card ''clubs'' ''2'' 2],
              playerHand = [Card ''hearts'' ''K'' 10,
                            Card ''spades'' ''8'' 8],
              dealerHand = [Card ''hearts'' ''5'' 5,
                            Card ''spades'' ''7'' 7],
              playerScore = 18, dealerScore = 12,
              isPlayerTurn = True, isGameOver = False, gameStatus = ''active''\<rparr>"
        "Card ''clubs'' ''6'' 6"
        "[Card ''clubs'' ''2'' 2]"]
  by (simp add: playerHit_def dealCards_def Let_def calculateHandScore_def sumCards_def
      adjustAces.simps)

text \<open>
  Claim C6, as stated, fails on the source: \<open>playerHit\<close> never reads \<open>isGameOver\<close>.
  On a finished round (the player is bust with 24) whose deck still holds a card, it does
  not fail with \<open>InvalidActionError\<close>: it deals that card and returns a changed state.
\<close>

theorem playerHit_after_game_over_counterexample:
  "isGameOver \<lparr>deck = [Card ''clubs'' ''2'' 2],
               playerHand = [Card ''hearts'' ''K'' 10,
                             Card ''spades'' ''8'' 8,
                             Card ''clubs'' ''6'' 6],
               dealerHand = [Card ''hearts'' ''5'' 5,
                             Card ''spades'' ''7'' 7],
               playerScore = 24, dealerScore = 12,
               isPlayerTurn = True, isGameOver = True, gameStatus = ''player_bust''\<rparr>
   \<and> playerHit \<lparr>deck = [Card ''clubs'' ''2'' 2],
               playerHand = [Card ''hearts'' ''K'' 10,
                             Card ''spades'' ''8'' 8,
                             Card ''clubs'' ''6'' 6],
               dealerHand = [Card ''hearts'' ''5'' 5,
                             Card ''spades'' ''7'' 7],
               playerScore = 24, dealerScore = 12,
               isPlayerTurn = True, isGameOver = True, gameStatus = ''player_bust''\<rparr>
     = Inr \<lparr>deck = [],
            playerHand = [Card ''hearts'' ''K'' 10,
                          Card ''spades'' ''8'' 8,
                          Card ''clubs'' ''6'' 6,
                          Card ''clubs'' ''2'' 2],
            dealerHand = [Card ''hearts'' ''5'' 5,
                          Card ''spades'' ''7'' 7],
            playerScore = 26, dealerScore = 12,
            isPlayerTurn = True, isGameOver = True, gameStatus = ''player_bust''\<rparr>
   \<and> playerHit \<lparr>deck = [Card ''clubs'' ''2'' 2],
               playerHand = [Card ''hearts'' ''K'' 10,
                             Card ''spades'' ''8'' 8,
                             Card ''clubs'' ''6'' 6],
               dealerHand = [Card ''hearts'' ''5'' 5,
                             Card ''spades'' ''7'' 7],
               playerScore = 24, dealerScore = 12,
               isPlayerTurn = True, isGameOver = True, gameStatus = ''player_bust''\<rparr>
     \<noteq> Inl InvalidActionError"
  by (simp add: playerHit_def dealCards_def Let_def calculateHandScore_def sumCards_def
      adjustAces.simps)

text \<open>
  Claim C6, amended. \<open>playerHit\<close> does not look at \<open>isGameOver\<close>: on a state with
  \<open>isGameOver\<close> set it never fails with \<open>InvalidActionError\<close> and behaves exactly as on
  the same state with \<open>isGameOver\<close> cleared. When the deck is not empty it deals the front
  card to the player and returns a state that differs from the input; when the deck is
  empty it raises \<open>TypeError\<close>.
\<close>

theorem playerHit_ignores_isGameOver:
  assumes "isGameOver g"
  shows "playerHit g \<noteq> Inl InvalidActionError
      \<and> playerHit g = playerHit (g\<lparr>isGameOver := False\<rparr>)
      \<and> (deck g = [] \<longrightarrow> playerHit g = Inl TypeError)
      \<and> (deck g \<noteq> [] \<longrightarrow>
           (\<exists>g'. playerHit g = Inr g' \<and> g' \<noteq> g
                \<and> playerHand g' = playerHand g @ [hd (deck g)]
                \<and> deck g' = tl (deck g)))"
proof (cases "deck g")
  case Nil
  then show ?thesis by (simp add: playerHit_def dealCards_def)
next
  case (Cons c rest)
  have "g\<lparr>deck := rest, playerHand := playerHand g @ [c],
            playerScore := calculateHandScore (playerHand g @ [c]),
            isGameOver := (calculateHandScore (playerHand g @ [c]) > 21),
            gameStatus := (if calculateHandScore (playerHand g @ [c]) > 21
                           then ''player_bust'' else ''active'')\<rparr> \<noteq> g" (is "?g' \<noteq> g")
  proof
    assume "?g' = g"
    then have "deck ?g' = deck g" by simp
    with Cons show False by simp
  qed
  with Cons show ?thesis by (simp add: playerHit_def dealCards_def Let_def)
qed

theorem playerHit_ignores_isGameOver_witness:
  "playerHit \<lparr>deck = [Card ''clubs'' ''2'' 2],
               playerHand = [Card ''hearts'' ''K'' 10, Card ''spades'' ''8'' 8,
                             Card ''clubs'' ''6'' 6],
               dealerHand = [Card ''hearts'' ''5'' 5, Card ''spades'' ''7'' 7],
               playerScore = 24, dealerScore = 12,
               isPlayerTurn = True, isGameOver = True, gameStatus = ''player_bust''\<rparr>
   = playerHit \<lparr>deck = [Card ''clubs'' ''2'' 2],
               playerHand = [Card ''hearts'' ''K'' 10, Card ''spades'' ''8'' 8,
                             Card ''clubs'' ''6'' 6],
               dealerHand = [Card ''hearts'' ''5'' 5, Card ''spades'' ''7'' 7],
               playerScore = 24, dealerScore = 12,
               isPlayerTurn = True, isGameOver = False, gameStatus = ''player_bust''\<rparr>
   \<and> playerHit \<lparr>deck = [Card ''clubs'' ''2'' 2],
               playerHand = [Card ''hearts'' ''K'' 10, Card ''spades'' ''8'' 8,
                             Card ''clubs'' ''6'' 6],
               dealerHand = [Card ''hearts'' ''5'' 5, Card ''spades'' ''7'' 7],
               playerScore = 24, dealerScore = 12,
               isPlayerTurn = True, isGameOver = True, gameStatus = ''player_bust''\<rparr>
     \<noteq> Inl InvalidActionError"
  using playerHit_ignores_isGameOver
    [of "\<lparr>deck = [Card ''clubs'' ''2'' 2],
               playerHand = [Card ''hearts'' ''K'' 10, Card ''spades'' ''8'' 8,
                             Card ''clubs'' ''6'' 6],
               dealerHand = [Card ''hearts'' ''5'' 5, Card ''spades'' ''7'' 7],
               playerScore = 24, dealerScore = 12,
               isPlayerTurn = True, isGameOver = True, gameStatus = ''player_bust''\<rparr>"]
  by auto

section \<open>The fresh deck\<close>

lemma ranks_parse:
  "list_all (\<lambda>r. r = ''A'' \<or> r \<in> set [''J'', ''Q'', ''K''] \<or> isDecimal r) ranks"
  by (simp add: ranks_def isDecimal_def digitValue_def)

lemma getCardValue_table:
  "getCardValue ''A'' = 11 \<and> getCardValue ''J'' = 10 \<and> getCardValue ''Q'' = 10
   \<and> getCardValue ''K'' = 10
   \<and> getCardValue ''2'' = 2 \<and> getCardValue ''3'' = 3 \<and> getCardValue ''4'' = 4
   \<and> getCardValue ''5'' = 5 \<and> getCardValue ''6'' = 6 \<and> getCardValue ''7'' = 7
   \<and> getCardValue ''8'' = 8 \<and> getCardValue ''9'' = 9 \<and> getCardValue ''10'' = 10"
  by (simp add: getCardValue_def parseInt_def digitValue_def)

lemma random_index:
  assumes "0 \<le> r" "r < 1"
  shows "nat \<lfloor>r * real (i + 1)\<rfloor> \<le> i"
proof -
  have "r * real (i + 1) < real (i + 1)"
    using assms by simp
  then have "\<lfloor>r * real (i + 1)\<rfloor> < int (i + 1)"
    by (simp add: floor_less_iff)
  then show ?thesis by simp
qed

lemma length_shuffleLoop: "length (shuffleLoop random i xs) = length xs"
proof (induction random i xs rule: shuffleLoop.induct)
  case (1 random i shuffled)
  show ?case
  proof (cases "i > 0")
    case True
    with "1.IH" [OF True refl] show ?thesis
      by (subst shuffleLoop.simps) (simp add: Let_def)
  next
    case False
    then show ?thesis by (subst shuffleLoop.simps) simp
  qed
qed

lemma mset_shuffleLoop:
  "validRandom random \<Longrightarrow> i < length xs \<Longrightarrow> mset (shuffleLoop random i xs) = mset xs"
proof (induction random i xs rule: shuffleLoop.induct)
  case (1 random i shuffled)
  show ?case
  proof (cases "i > 0")
    case True
    define j where "j = nat \<lfloor>random i * real (i + 1)\<rfloor>"
    have "j \<le> i"
      unfolding j_def using "1.prems"(1) by (intro random_index) (auto simp: validRandom_def)
    with "1.prems"(2) have j: "j < length shuffled" by simp
    have swap: "mset (shuffled[i := shuffled ! j, j := shuffled ! i]) = mset shuffled"
      using mset_swap [OF j "1.prems"(2)] .
    have "mset (shuffleLoop random (i - 1) (shuffled[i := shuffled ! j, j := shuffled ! i]))
        = mset (shuffled[i := shuffled ! j, j := shuffled ! i])"
      using "1.IH" [OF True j_def] "1.prems" by simp
    with swap have "mset (shuffleLoop random (i - 1)
        (shuffled[i := shuffled ! j, j := shuffled ! i])) = mset shuffled"
      by simp
    with True show ?thesis
      by (subst shuffleLoop.simps) (simp add: Let_def j_def)
  next
    case False
    then show ?thesis by (subst shuffleLoop.simps) simp
  qed
qed

lemma length_orderedDeck: "length orderedDeck = 52"
  by (simp add: orderedDeck_def suits_def ranks_def)

lemma mset_createDeck: "validRandom random \<Longrightarrow> mset (createDeck random) = mset orderedDeck"
  by (simp add: createDeck_def shuffleDeck_def mset_shuffleLoop length_orderedDeck)

lemma length_createDeck: "length (createDeck random) = 52"
  by (simp add: createDeck_def shuffleDeck_def length_shuffleLoop length_orderedDeck)

lemma keys_orderedDeck: "map cardKey orderedDeck = List.product suits ranks"
  by (simp add: orderedDeck_def suits_def ranks_def cardKey_def)

lemma distinct_product_suits_ranks: "distinct (List.product suits ranks)"
  by (simp add: suits_def ranks_def)

lemma validCard_orderedDeck: "list_all validCard orderedDeck"
  by (simp add: orderedDeck_def validCard_def list_all_iff)


lemma mset_keys_createDeck:
  "validRandom random \<Longrightarrow>
   mset (map cardKey (createDeck random)) = mset (List.product suits ranks)"
proof -
  assume "validRandom random"
  then have "mset (map cardKey (createDeck random)) = mset (map cardKey orderedDeck)"
    by (simp add: mset_createDeck)
  then show ?thesis by (simp add: keys_orderedDeck)
qed

lemma distinct_keys_createDeck:
  "validRandom random \<Longrightarrow> distinct (map cardKey (createDeck random))"
  using mset_eq_imp_distinct_iff [OF mset_keys_createDeck [of random]]
    distinct_product_suits_ranks
  by blast

lemma set_createDeck: "validRandom random \<Longrightarrow> set (createDeck random) = set orderedDeck"
  using mset_createDeck [of random] by (rule mset_eq_setD)

text \<open>
  Claim C4. For every outcome of the shuffle (every sequence of numbers in the range of
  \<^verbatim>\<open>Math.random\<close>), the deck that \<open>createDeck\<close> returns has 52 cards; its (suit, rank)
  pairs are those of the product of the 4 suits and the 13 ranks, each pair exactly once;
  and every card carries the value of its rank in the fixed table: 11 for \<open>A\<close>, 10 for
  \<open>J\<close>, \<open>Q\<close> and \<open>K\<close>, and its own number for a numeral rank.
\<close>

theorem createDeck_standard_deck:
  assumes "validRandom random"
  shows "length (createDeck random) = 52
    \<and> length suits = 4 \<and> length ranks = 13 \<and> distinct suits \<and> distinct ranks
    \<and> mset (map cardKey (createDeck random)) = mset (List.product suits ranks)
    \<and> (\<forall>s\<in>set suits. \<forall>r\<in>set ranks.
          count_list (map cardKey (createDeck random)) (s, r) = 1)
    \<and> (\<forall>c\<in>set (createDeck random).
          suit c \<in> set suits \<and> rank c \<in> set ranks \<and> value c = getCardValue (rank c))
    \<and> getCardValue ''A'' = 11
    \<and> getCardValue ''J'' = 10 \<and> getCardValue ''Q'' = 10 \<and> getCardValue ''K'' = 10
    \<and> getCardValue ''2'' = 2 \<and> getCardValue ''3'' = 3 \<and> getCardValue ''4'' = 4
    \<and> getCardValue ''5'' = 5 \<and> getCardValue ''6'' = 6 \<and> getCardValue ''7'' = 7
    \<and> getCardValue ''8'' = 8 \<and> getCardValue ''9'' = 9 \<and> getCardValue ''10'' = 10"
proof -
  have once: "count_list (map cardKey (createDeck random)) (s, r) = 1"
    if "s \<in> set suits" "r \<in> set ranks" for s r
  proof -
    have "count_list (map cardKey (createDeck random)) (s, r)
        = count (mset (map cardKey (createDeck random))) (s, r)"
      by (simp only: count_mset)
    also have "\<dots> = count (mset (List.product suits ranks)) (s, r)"
      by (simp only: mset_keys_createDeck [OF assms])
    also have "\<dots> = 1"
      using that distinct_product_suits_ranks by (simp add: distinct_count_atmost_1)
    finally show ?thesis .
  qed
  have valid: "suit c \<in> set suits \<and> rank c \<in> set ranks \<and> value c = getCardValue (rank c)"
    if "c \<in> set (createDeck random)" for c
    using that validCard_orderedDeck set_createDeck [OF assms]
    by (simp add: list_all_iff validCard_def)
  have sizes: "length suits = 4 \<and> length ranks = 13 \<and> distinct suits \<and> distinct ranks"
    by (simp add: suits_def ranks_def)
  from once valid sizes length_createDeck [of random] mset_keys_createDeck [OF assms]
    getCardValue_table
  show ?thesis by blast
qed

theorem createDeck_standard_deck_witness:
  "length (createDeck (\<lambda>i. 1 / 2)) = 52
   \<and> mset (map cardKey (createDeck (\<lambda>i. 1 / 2))) = mset (List.product suits ranks)
   \<and> list_all validCard (createDeck (\<lambda>i. 1 / 2))"
  using createDeck_standard_deck [of "\<lambda>i. 1 / 2"]
  by (simp add: validRandom_def list_all_iff validCard_def)

text \<open>
  Claim C10, as stated, fails on the source: the \<open>value\<close> fields of a fresh deck do
  repeat. The deck has 52 cards and \<open>getCardValue\<close> has ten results only, so whatever the
  shuffle does, two positions hold the same value.
\<close>

theorem createDeck_values_repeat_counterexample:
  "\<not> distinct (map value (createDeck (\<lambda>i. 0)))"
proof -
  have "validRandom (\<lambda>i. 0)" by (simp add: validRandom_def)
  then have "mset (map value (createDeck (\<lambda>i. 0))) = mset (map value orderedDeck)"
    by (simp add: mset_createDeck)
  then have "distinct (map value (createDeck (\<lambda>i. 0))) = distinct (map value orderedDeck)"
    by (rule mset_eq_imp_distinct_iff)
  moreover have "\<not> distinct (map value orderedDeck)"
    by (simp add: orderedDeck_def suits_def ranks_def getCardValue_def parseInt_def
        digitValue_def)
  ultimately show ?thesis by simp
qed

text \<open>
  Claim C10, amended. Within every freshly created deck no card repeats: any two distinct
  positions hold cards with different (suit, rank) pairs. The \<open>value\<close> fields do repeat:
  the value 10 occurs 16 times and each of the values 2 to 9 and 11 occurs 4 times.
\<close>

theorem createDeck_no_card_repeats:
  assumes "validRandom random"
  shows "(\<forall>i j. i < length (createDeck random) \<and> j < length (createDeck random) \<and> i \<noteq> j
            \<longrightarrow> cardKey (createDeck random ! i) \<noteq> cardKey (createDeck random ! j))
    \<and> distinct (createDeck random)
    \<and> count_list (map value (createDeck random)) 10 = 16
    \<and> map (count_list (map value (createDeck random))) [2, 3, 4, 5, 6, 7, 8, 9, 11]
        = [4, 4, 4, 4, 4, 4, 4, 4, 4]"
proof -
  have d: "distinct (map cardKey (createDeck random))"
    using assms by (rule distinct_keys_createDeck)
  have pos: "cardKey (createDeck random ! i) \<noteq> cardKey (createDeck random ! j)"
    if "i < length (createDeck random)" "j < length (createDeck random)" "i \<noteq> j" for i j
    using d that by (simp add: distinct_conv_nth)
  have vals: "mset (map value (createDeck random)) = mset (map value orderedDeck)"
    using assms by (simp add: mset_createDeck)
  have cnt: "count_list (map value (createDeck random)) v = count_list (map value orderedDeck) v"
    for v
    using arg_cong [OF vals, of "\<lambda>m. count m v"] by (simp only: count_mset)
  have ord: "count_list (map value orderedDeck) 10 = 16
    \<and> map (count_list (map value orderedDeck)) [2, 3, 4, 5, 6, 7, 8, 9, 11]
        = [4, 4, 4, 4, 4, 4, 4, 4, 4]"
    by (simp add: orderedDeck_def suits_def ranks_def getCardValue_def parseInt_def
        digitValue_def)
  from d have "distinct (createDeck random)" by (simp add: distinct_map)
  with pos ord show ?thesis by (simp add: cnt)
qed

theorem createDeck_no_card_repeats_witness:
  "distinct (createDeck (\<lambda>i. 1 / 3))
   \<and> count_list (map value (createDeck (\<lambda>i. 1 / 3))) 10 = 16
   \<and> cardKey (createDeck (\<lambda>i. 1 / 3) ! 0) \<noteq> cardKey (createDeck (\<lambda>i. 1 / 3) ! 51)"
  using createDeck_no_card_repeats [of "\<lambda>i. 1 / 3"]
  by (simp add: validRandom_def length_createDeck)

section \<open>The stand transition\<close>

lemma dealerLoop_stop:
  "17 \<le> dScore \<Longrightarrow> dealerLoop d dHand dScore = Inr (d, dHand, dScore)"
  by (subst dealerLoop.simps) (simp add: DEALER_STAND_THRESHOLD_def)

lemma dealerLoop_empty:
  "dScore < 17 \<Longrightarrow> dealerLoop [] dHand dScore = Inl TypeError"
  by (subst dealerLoop.simps) (simp add: DEALER_STAND_THRESHOLD_def dealCards_def)

lemma dealerLoop_draw:
  "dScore < 17 \<Longrightarrow>
   dealerLoop (c # d) dHand dScore
     = dealerLoop d (dHand @ [c]) (calculateHandScore (dHand @ [c]))"
  by (subst dealerLoop.simps) (simp add: DEALER_STAND_THRESHOLD_def dealCards_def)

lemma dealerLoop_reaches:
  "n \<le> length d \<Longrightarrow>
   \<forall>k<n. calculateHandScore (dHand @ take k d) < 17 \<Longrightarrow>
   17 \<le> calculateHandScore (dHand @ take n d) \<Longrightarrow>
   dealerLoop d dHand (calculateHandScore dHand)
     = Inr (drop n d, dHand @ take n d, calculateHandScore (dHand @ take n d))"
proof (induction n arbitrary: d dHand)
  case 0
  then show ?case by (simp add: dealerLoop_stop)
next
  case (Suc n)
  from Suc.prems(1) obtain c d' where d: "d = c # d'"
    by (cases d) auto
  from Suc.prems(2) have low: "calculateHandScore dHand < 17"
    by fastforce
  have below: "\<forall>k<n. calculateHandScore ((dHand @ [c]) @ take k d') < 17"
  proof (intro allI impI)
    fix k assume "k < n"
    then have "Suc k < Suc n" by simp
    with Suc.prems(2) have "calculateHandScore (dHand @ take (Suc k) d) < 17" by blast
    with d show "calculateHandScore ((dHand @ [c]) @ take k d') < 17" by simp
  qed
  have "dealerLoop d' (dHand @ [c]) (calculateHandScore (dHand @ [c]))
      = Inr (drop n d', (dHand @ [c]) @ take n d',
             calculateHandScore ((dHand @ [c]) @ take n d'))"
    using Suc.prems(1,3) d below by (intro Suc.IH) auto
  with low d show ?case by (simp add: dealerLoop_draw)
qed

lemma dealerLoop_runs_out:
  "\<forall>n\<le>length d. calculateHandScore (dHand @ take n d) < 17 \<Longrightarrow>
   dealerLoop d dHand (calculateHandScore dHand) = Inl TypeError"
proof (induction d arbitrary: dHand)
  case Nil
  then show ?case by (simp add: dealerLoop_empty)
next
  case (Cons c d)
  from Cons.prems have low: "calculateHandScore dHand < 17"
    by fastforce
  have "\<forall>n\<le>length d. calculateHandScore ((dHand @ [c]) @ take n d) < 17"
  proof (intro allI impI)
    fix n assume "n \<le> length d"
    then have "Suc n \<le> length (c # d)" by simp
    with Cons.prems have "calculateHandScore (dHand @ take (Suc n) (c # d)) < 17" by blast
    then show "calculateHandScore ((dHand @ [c]) @ take n d) < 17" by simp
  qed
  then have "dealerLoop d (dHand @ [c]) (calculateHandScore (dHand @ [c])) = Inl TypeError"
    by (rule Cons.IH)
  with low show ?case by (simp add: dealerLoop_draw)
qed

lemma first_reach:
  assumes "m \<le> length d" "17 \<le> calculateHandScore (dHand @ take m d)"
  shows "\<exists>n\<le>m. (\<forall>k<n. calculateHandScore (dHand @ take k d) < 17)
      \<and> 17 \<le> calculateHandScore (dHand @ take n d)"
proof -
  define P where "P n = (17 \<le> calculateHandScore (dHand @ take n d))" for n
  define n where "n = (LEAST n. P n)"
  have "P m" using assms(2) by (simp add: P_def)
  then have "P n" and "n \<le> m" and "\<forall>k<n. \<not> P k"
    unfolding n_def by (auto intro: LeastI Least_le dest: not_less_Least)
  then show ?thesis unfolding P_def by (auto simp: not_le)
qed

lemma playerStand_Inr:
  assumes "n \<le> length (deck g)"
    and "\<forall>k<n. calculateHandScore (dealerHand g @ take k (deck g)) < 17"
    and "17 \<le> calculateHandScore (dealerHand g @ take n (deck g))"
  shows "playerStand g =
     Inr (g\<lparr>deck := drop n (deck g), dealerHand := dealerHand g @ take n (deck g),
            dealerScore := calculateHandScore (dealerHand g @ take n (deck g)),
            isPlayerTurn := False, isGameOver := True,
            gameStatus :=
              (if calculateHandScore (dealerHand g @ take n (deck g)) > 21 then ''dealer_bust''
               else if calculateHandScore (dealerHand g @ take n (deck g)) > playerScore g
                 then ''dealer_win''
               else if playerScore g > calculateHandScore (dealerHand g @ take n (deck g))
                 then ''player_win''
               else ''tie'')\<rparr>)"
  by (simp add: playerStand_def dealerLoop_reaches [OF assms])

lemma playerStand_Inl:
  "\<forall>n\<le>length (deck g). calculateHandScore (dealerHand g @ take n (deck g)) < 17 \<Longrightarrow>
   playerStand g = Inl TypeError"
  by (simp add: playerStand_def dealerLoop_runs_out)


text \<open>
  Claim C2, as stated, fails on the source: the dealer's loop takes cards without looking
  at the length of the deck. On a round that is not over, with the dealer at 12 and an
  empty deck, the first draw yields \<^verbatim>\<open>undefined\<close> and \<open>calculateHandScore\<close> raises:
  no state is returned, so no outcome is classified and \<open>isGameOver\<close> is not set.
\<close>

theorem playerStand_exhausted_deck_counterexample:
  "\<not> isGameOver
       \<lparr>deck = [],
        playerHand = [Card ''hearts'' ''K'' 10, Card ''spades'' ''8'' 8],
        dealerHand = [Card ''hearts'' ''5'' 5, Card ''spades'' ''7'' 7],
        playerScore = 18, dealerScore = 12,
        isPlayerTurn = True, isGameOver = False, gameStatus = ''active''\<rparr>
   \<and> playerStand
       \<lparr>deck = [],
        playerHand = [Card ''hearts'' ''K'' 10, Card ''spades'' ''8'' 8],
        dealerHand = [Card ''hearts'' ''5'' 5, Card ''spades'' ''7'' 7],
        playerScore = 18, dealerScore = 12,
        isPlayerTurn = True, isGameOver = False, gameStatus = ''active''\<rparr>
     = Inl TypeError"
  by (simp add: playerStand_def dealerLoop.simps DEALER_STAND_THRESHOLD_def dealCards_def
      calculateHandScore_def sumCards_def adjustAces.simps)

text \<open>
  Claim C2, amended. For every state in which the deck serves the dealer's draws, that
  is, the dealer's hand first scores 17 or more after \<open>n\<close> cards of the deck with \<open>n\<close>
  within the deck, \<open>playerStand\<close> returns a state with \<open>isPlayerTurn\<close> false, the dealer's
  hand extended by exactly those \<open>n\<close> front cards of the deck (one card per round of the
  loop, each round entered with a score below 17), \<open>dealerScore\<close> computed from the final
  hand, the status decided by: dealer above 21 gives \<open>dealer_bust\<close>, otherwise dealer
  above player gives \<open>dealer_win\<close>, otherwise player above dealer gives \<open>player_win\<close>,
  otherwise \<open>tie\<close>; and \<open>isGameOver\<close> true. When the deck runs out while the dealer is
  still below 17, \<open>playerStand\<close> raises \<open>TypeError\<close> instead.
\<close>

theorem playerStand_dealer_plays:
  "(n \<le> length (deck g)
      \<and> (\<forall>k<n. calculateHandScore (dealerHand g @ take k (deck g)) < 17)
      \<and> 17 \<le> calculateHandScore (dealerHand g @ take n (deck g))
    \<longrightarrow> (\<exists>g'. playerStand g = Inr g'
          \<and> \<not> isPlayerTurn g'
          \<and> dealerHand g' = dealerHand g @ take n (deck g)
          \<and> deck g' = drop n (deck g)
          \<and> dealerScore g' = calculateHandScore (dealerHand g')
          \<and> 17 \<le> dealerScore g'
          \<and> gameStatus g' =
               (if dealerScore g' > 21 then ''dealer_bust''
                else if dealerScore g' > playerScore g then ''dealer_win''
                else if playerScore g > dealerScore g' then ''player_win''
                else ''tie'')
          \<and> isGameOver g'
          \<and> playerHand g' = playerHand g
          \<and> playerScore g' = playerScore g))
   \<and> ((\<forall>m\<le>length (deck g). calculateHandScore (dealerHand g @ take m (deck g)) < 17)
        \<longrightarrow> playerStand g = Inl TypeError)"
proof (intro conjI impI)
  assume a: "n \<le> length (deck g)
      \<and> (\<forall>k<n. calculateHandScore (dealerHand g @ take k (deck g)) < 17)
      \<and> 17 \<le> calculateHandScore (dealerHand g @ take n (deck g))"
  then have "playerStand g =
     Inr (g\<lparr>deck := drop n (deck g), dealerHand := dealerHand g @ take n (deck g),
            dealerScore := calculateHandScore (dealerHand g @ take n (deck g)),
            isPlayerTurn := False, isGameOver := True,
            gameStatus :=
              (if calculateHandScore (dealerHand g @ take n (deck g)) > 21 then ''dealer_bust''
               else if calculateHandScore (dealerHand g @ take n (deck g)) > playerScore g
                 then ''dealer_win''
               else if playerScore g > calculateHandScore (dealerHand g @ take n (deck g))
                 then ''player_win''
               else ''tie'')\<rparr>)"
    by (intro playerStand_Inr) auto
  with a show "\<exists>g'. playerStand g = Inr g'
          \<and> \<not> isPlayerTurn g'
          \<and> dealerHand g' = dealerHand g @ take n (deck g)
          \<and> deck g' = drop n (deck g)
          \<and> dealerScore g' = calculateHandScore (dealerHand g')
          \<and> 17 \<le> dealerScore g'
          \<and> gameStatus g' =
               (if dealerScore g' > 21 then ''dealer_bust''
                else if dealerScore g' > playerScore g then ''dealer_win''
                else if playerScore g > dealerScore g' then ''player_win''
                else ''tie'')
          \<and> isGameOver g'
          \<and> playerHand g' = playerHand g
          \<and> playerScore g' = playerScore g"
    by simp
next
  assume "\<forall>m\<le>length (deck g). calculateHandScore (dealerHand g @ take m (deck g)) < 17"
  then show "playerStand g = Inl TypeError" by (rule playerStand_Inl)
qed

theorem playerStand_dealer_plays_witness:
  "playerStand
       \<lparr>deck = [Card ''clubs'' ''8'' 8, Card ''diamonds'' ''2'' 2],
        playerHand = [Card ''hearts'' ''K'' 10, Card ''spades'' ''Q'' 10],
        dealerHand = [Card ''hearts'' ''5'' 5, Card ''spades'' ''7'' 7],
        playerScore = 20, dealerScore = 12,
        isPlayerTurn = True, isGameOver = False, gameStatus = ''active''\<rparr>
   = Inr \<lparr>deck = [Card ''diamonds'' ''2'' 2],
          playerHand = [Card ''hearts'' ''K'' 10, Card ''spades'' ''Q'' 10],
          dealerHand = [Card ''hearts'' ''5'' 5, Card ''spades'' ''7'' 7,
                        Card ''clubs'' ''8'' 8],
          playerScore = 20, dealerScore = 20,
          isPlayerTurn = False, isGameOver = True, gameStatus = ''tie''\<rparr>"
  using playerStand_dealer_plays
    [of 1 "\<lparr>deck = [Card ''clubs'' ''8'' 8, Card ''diamonds'' ''2'' 2],
        playerHand = [Card ''hearts'' ''K'' 10, Card ''spades'' ''Q'' 10],
        dealerHand = [Card ''hearts'' ''5'' 5, Card ''spades'' ''7'' 7],
        playerScore = 20, dealerScore = 12,
        isPlayerTurn = True, isGameOver = False, gameStatus = ''active''\<rparr>"]
  by (simp add: playerStand_def dealerLoop.simps DEALER_STAND_THRESHOLD_def dealCards_def
      calculateHandScore_def sumCards_def adjustAces.simps)

section \<open>The dealer's loop returns\<close>

lemma hardTotal_le_score: "hardTotal hand \<le> calculateHandScore hand"
proof -
  obtain k where "k \<le> numAces hand" "calculateHandScore hand = valueSum hand - 10 * int k"
    using calculateHandScore_char by blast
  then show ?thesis by (simp add: hardTotal_def)
qed

lemma hardTotal_append:
  "hardTotal (hand @ [c]) = hardTotal hand + (if rank c = ''A'' then value c - 10 else value c)"
  by (simp add: hardTotal_def valueSum_def numAces_def)

lemma validCard_contribution:
  "validCard c \<Longrightarrow> 1 \<le> (if rank c = ''A'' then value c - 10 else value c)"
  by (auto simp: validCard_def ranks_def getCardValue_def parseInt_def digitValue_def)

lemma hardTotal_grows:
  "validCard c \<Longrightarrow> hardTotal hand + 1 \<le> hardTotal (hand @ [c])"
  using validCard_contribution [of c] by (simp add: hardTotal_append)

lemma hardTotal_ge_length:
  "list_all validCard hand \<Longrightarrow> int (length hand) \<le> hardTotal hand"
proof (induction hand rule: rev_induct)
  case Nil
  show ?case by (simp add: hardTotal_def valueSum_def numAces_def)
next
  case (snoc c hand)
  then have "int (length hand) \<le> hardTotal hand" and "validCard c" by simp_all
  with hardTotal_grows [of c hand] show ?case by simp
qed

lemma seventeen_cards_suffice:
  assumes "list_all validCard dHand" "list_all validCard d" "17 \<le> length d"
  shows "17 \<le> calculateHandScore (dHand @ take 17 d)"
proof -
  have "list_all validCard (dHand @ take 17 d)"
    using assms(1,2) by (auto simp: list_all_iff dest: in_set_takeD)
  then have "int (length (dHand @ take 17 d)) \<le> hardTotal (dHand @ take 17 d)"
    by (rule hardTotal_ge_length)
  moreover have "17 \<le> int (length (dHand @ take 17 d))"
    using assms(3) by simp
  ultimately show ?thesis
    using hardTotal_le_score [of "dHand @ take 17 d"] by linarith
qed

lemma playerStand_returns:
  assumes "m \<le> length (deck g)" "17 \<le> calculateHandScore (dealerHand g @ take m (deck g))"
  shows "\<exists>g' n. n \<le> m \<and> playerStand g = Inr g'
      \<and> dealerHand g' = dealerHand g @ take n (deck g)
      \<and> deck g' = drop n (deck g)
      \<and> 17 \<le> dealerScore g' \<and> isGameOver g'"
proof -
  from first_reach [OF assms] obtain n where n: "n \<le> m"
    "\<forall>k<n. calculateHandScore (dealerHand g @ take k (deck g)) < 17"
    "17 \<le> calculateHandScore (dealerHand g @ take n (deck g))"
    by blast
  from n(1) assms(1) have "n \<le> length (deck g)" by simp
  from playerStand_Inr [OF this n(2,3)] n(3)
  have "\<exists>g'. playerStand g = Inr g'
      \<and> dealerHand g' = dealerHand g @ take n (deck g)
      \<and> deck g' = drop n (deck g)
      \<and> 17 \<le> dealerScore g' \<and> isGameOver g'"
    by simp
  with n(1) show ?thesis by blast
qed

text \<open>
  Claim C7, as stated, fails on the source in the reason it gives: a drawn card need not
  raise the dealer's score. With Ace and 4 the dealer scores 15; drawing a 9 turns the
  Ace from 11 to 1 and the score falls to 14 (and Ace, 5 with a King stays at 16).
\<close>

theorem dealer_score_can_drop_counterexample:
  "list_all validCard
     [Card ''hearts'' ''A'' 11, Card ''hearts'' ''4'' 4, Card ''hearts'' ''9'' 9]
   \<and> calculateHandScore [Card ''hearts'' ''A'' 11, Card ''hearts'' ''4'' 4] = 15
   \<and> calculateHandScore
       ([Card ''hearts'' ''A'' 11, Card ''hearts'' ''4'' 4] @ [Card ''hearts'' ''9'' 9]) = 14
   \<and> \<not> calculateHandScore [Card ''hearts'' ''A'' 11, Card ''hearts'' ''4'' 4] + 1
       \<le> calculateHandScore
           ([Card ''hearts'' ''A'' 11, Card ''hearts'' ''4'' 4] @ [Card ''hearts'' ''9'' 9])
   \<and> calculateHandScore [Card ''hearts'' ''A'' 11, Card ''hearts'' ''5'' 5] = 16
   \<and> calculateHandScore
       ([Card ''hearts'' ''A'' 11, Card ''hearts'' ''5'' 5] @ [Card ''hearts'' ''K'' 10]) = 16"
  by (simp add: calculateHandScore_def sumCards_def adjustAces.simps validCard_def suits_def
      ranks_def getCardValue_def parseInt_def digitValue_def)

text \<open>
  Claim C7, amended. For every state in which the deck does not run out while the
  dealer is below 17 (the dealer's hand scores 17 or more after some \<open>m\<close> cards of the
  deck, \<open>m\<close> within the deck), \<open>playerStand\<close> returns, after at most \<open>m\<close> draws. In
  particular it returns, after at most 17 draws, on every state whose dealer's hand and
  deck consist of cards of the standard deck and whose deck holds at least 17 cards.
  The reason is not that the score rises with each card, but that the total with every
  Ace counted as 1 rises by at least 1 with each standard card, and the score is never
  below that total.
\<close>

theorem playerStand_total:
  "((\<exists>m\<le>length (deck g). 17 \<le> calculateHandScore (dealerHand g @ take m (deck g)))
      \<longrightarrow> (\<exists>g'. playerStand g = Inr g' \<and> 17 \<le> dealerScore g' \<and> isGameOver g'))
   \<and> (list_all validCard (dealerHand g) \<and> list_all validCard (deck g) \<and> 17 \<le> length (deck g)
      \<longrightarrow> (\<exists>g' n. n \<le> 17 \<and> playerStand g = Inr g'
            \<and> dealerHand g' = dealerHand g @ take n (deck g)
            \<and> deck g' = drop n (deck g)
            \<and> 17 \<le> dealerScore g' \<and> isGameOver g'))
   \<and> (validCard c \<longrightarrow> hardTotal hand + 1 \<le> hardTotal (hand @ [c]))
   \<and> hardTotal hand \<le> calculateHandScore hand"
proof (intro conjI impI)
  assume "\<exists>m\<le>length (deck g). 17 \<le> calculateHandScore (dealerHand g @ take m (deck g))"
  then obtain m where "m \<le> length (deck g)"
    "17 \<le> calculateHandScore (dealerHand g @ take m (deck g))" by blast
  from playerStand_returns [OF this]
  show "\<exists>g'. playerStand g = Inr g' \<and> 17 \<le> dealerScore g' \<and> isGameOver g'" by blast
next
  assume a: "list_all validCard (dealerHand g) \<and> list_all validCard (deck g)
    \<and> 17 \<le> length (deck g)"
  then have "17 \<le> calculateHandScore (dealerHand g @ take 17 (deck g))"
    by (intro seventeen_cards_suffice) auto
  with a show "\<exists>g' n. n \<le> 17 \<and> playerStand g = Inr g'
            \<and> dealerHand g' = dealerHand g @ take n (deck g)
            \<and> deck g' = drop n (deck g)
            \<and> 17 \<le> dealerScore g' \<and> isGameOver g'"
    using playerStand_returns [of 17 g] by blast
next
  assume "validCard c"
  then show "hardTotal hand + 1 \<le> hardTotal (hand @ [c])" by (rule hardTotal_grows)
next
  show "hardTotal hand \<le> calculateHandScore hand" by (rule hardTotal_le_score)
qed


theorem playerStand_total_witness:
  "list_all validCard [Card ''hearts'' ''3'' 3, Card ''hearts'' ''4'' 4]
   \<and> list_all validCard (drop 4 orderedDeck)
   \<and> 17 \<le> length (drop 4 orderedDeck)
   \<and> (\<exists>g'. playerStand
          \<lparr>deck = drop 4 orderedDeck,
           playerHand = [Card ''hearts'' ''A'' 11, Card ''hearts'' ''2'' 2],
           dealerHand = [Card ''hearts'' ''3'' 3, Card ''hearts'' ''4'' 4],
           playerScore = 13, dealerScore = 7,
           isPlayerTurn = True, isGameOver = False, gameStatus = ''active''\<rparr> = Inr g'
        \<and> dealerHand g' = [Card ''hearts'' ''3'' 3, Card ''hearts'' ''4'' 4,
                            Card ''hearts'' ''5'' 5, Card ''hearts'' ''6'' 6]
        \<and> dealerScore g' = 18 \<and> isGameOver g')"
proof -
  have v: "list_all validCard [Card ''hearts'' ''3'' 3, Card ''hearts'' ''4'' 4]"
    by (simp add: validCard_def suits_def ranks_def getCardValue_def parseInt_def
        digitValue_def)
  have d: "list_all validCard (drop 4 orderedDeck)"
    using validCard_orderedDeck by (auto simp: list_all_iff dest: in_set_dropD)
  have l: "17 \<le> length (drop 4 orderedDeck)"
    by (simp add: length_orderedDeck)
  have e: "playerStand
          \<lparr>deck = drop 4 orderedDeck,
           playerHand = [Card ''hearts'' ''A'' 11, Card ''hearts'' ''2'' 2],
           dealerHand = [Card ''hearts'' ''3'' 3, Card ''hearts'' ''4'' 4],
           playerScore = 13, dealerScore = 7,
           isPlayerTurn = True, isGameOver = False, gameStatus = ''active''\<rparr>
      = Inr \<lparr>deck = drop 6 orderedDeck,
           playerHand = [Card ''hearts'' ''A'' 11, Card ''hearts'' ''2'' 2],
           dealerHand = [Card ''hearts'' ''3'' 3, Card ''hearts'' ''4'' 4,
                         Card ''hearts'' ''5'' 5, Card ''hearts'' ''6'' 6],
           playerScore = 13, dealerScore = 18,
           isPlayerTurn = False, isGameOver = True, gameStatus = ''dealer_win''\<rparr>"
    by (simp add: playerStand_def dealerLoop.simps DEALER_STAND_THRESHOLD_def dealCards_def
        calculateHandScore_def sumCards_def adjustAces.simps orderedDeck_def suits_def
        ranks_def getCardValue_def parseInt_def digitValue_def)
  from v d l e playerStand_total
    [of "\<lparr>deck = drop 4 orderedDeck,
           playerHand = [Card ''hearts'' ''A'' 11, Card ''hearts'' ''2'' 2],
           dealerHand = [Card ''hearts'' ''3'' 3, Card ''hearts'' ''4'' 4],
           playerScore = 13, dealerScore = 7,
           isPlayerTurn = True, isGameOver = False, gameStatus = ''active''\<rparr>"]
  show ?thesis by simp
qed

section \<open>Conservation of cards\<close>

lemma playerHit_Inr_step:
  assumes "playerHit g = Inr g'"
  shows "\<exists>c. deck g = c # deck g' \<and> playerHand g' = playerHand g @ [c]
      \<and> dealerHand g' = dealerHand g"
proof (cases "deck g")
  case Nil
  with assms show ?thesis by (simp add: playerHit_Nil)
next
  case (Cons c rest)
  from assms playerHit_Cons [OF Cons] Cons show ?thesis by auto
qed

lemma dealerLoop_Inr_step:
  "dealerLoop d dHand dScore = Inr (d', dHand', dScore') \<Longrightarrow>
   \<exists>n\<le>length d. d' = drop n d \<and> dHand' = dHand @ take n d"
proof (induction d arbitrary: dHand dScore)
  case Nil
  then show ?case
    by (cases "dScore < 17") (simp_all add: dealerLoop_empty dealerLoop_stop)
next
  case (Cons c d)
  show ?case
  proof (cases "dScore < 17")
    case True
    with Cons.prems
    have "dealerLoop d (dHand @ [c]) (calculateHandScore (dHand @ [c])) = Inr (d', dHand', dScore')"
      by (simp add: dealerLoop_draw)
    from Cons.IH [OF this] obtain n where "n \<le> length d" "d' = drop n d"
      "dHand' = (dHand @ [c]) @ take n d" by blast
    then show ?thesis by (intro exI [of _ "Suc n"]) simp
  next
    case False
    with Cons.prems show ?thesis by (intro exI [of _ 0]) (simp add: dealerLoop_stop)
  qed
qed

lemma playerStand_Inr_step:
  assumes "playerStand g = Inr g'"
  shows "\<exists>n\<le>length (deck g). deck g' = drop n (deck g)
      \<and> dealerHand g' = dealerHand g @ take n (deck g) \<and> playerHand g' = playerHand g"
proof (cases "dealerLoop (deck g) (dealerHand g) (calculateHandScore (dealerHand g))")
  case (Inl e)
  with assms show ?thesis by (simp add: playerStand_def)
next
  case (Inr r)
  obtain d' dHand' dScore' where r: "r = (d', dHand', dScore')" by (cases r)
  from dealerLoop_Inr_step [OF Inr [unfolded r]] obtain n where
    "n \<le> length (deck g)" "d' = drop n (deck g)" "dHand' = dealerHand g @ take n (deck g)"
    by blast
  moreover from assms Inr r have "deck g' = d'" "dealerHand g' = dHand'"
    "playerHand g' = playerHand g"
    by (auto simp: playerStand_def)
  ultimately show ?thesis by blast
qed

lemma applyAction_step:
  assumes "applyAction a g = Inr g'"
  shows "\<exists>p q. playerHand g' = playerHand g @ p \<and> dealerHand g' = dealerHand g @ q
      \<and> deck g = (p @ q) @ deck g'"
proof (cases a)
  case Hit
  with assms playerHit_Inr_step [of g g'] show ?thesis by auto
next
  case Stand
  with assms playerStand_Inr_step [of g g'] obtain n where
    "deck g' = drop n (deck g)" "dealerHand g' = dealerHand g @ take n (deck g)"
    "playerHand g' = playerHand g" by auto
  then show ?thesis
    by (intro exI [of _ "[]"] exI [of _ "take n (deck g)"]) simp
qed

lemma play_conserves:
  "play acts g = Inr g' \<Longrightarrow>
   \<exists>p q dealt. playerHand g' = playerHand g @ p \<and> dealerHand g' = dealerHand g @ q
      \<and> deck g = dealt @ deck g' \<and> mset dealt = mset p + mset q"
proof (induction acts arbitrary: g)
  case Nil
  then show ?case by simp
next
  case (Cons a acts)
  from Cons.prems obtain g1 where g1: "applyAction a g = Inr g1" "play acts g1 = Inr g'"
    by (auto split: sum.splits)
  from applyAction_step [OF g1(1)] obtain p1 q1 where s1:
    "playerHand g1 = playerHand g @ p1" "dealerHand g1 = dealerHand g @ q1"
    "deck g = (p1 @ q1) @ deck g1" by blast
  from Cons.IH [OF g1(2)] obtain p2 q2 dealt2 where s2:
    "playerHand g' = playerHand g1 @ p2" "dealerHand g' = dealerHand g1 @ q2"
    "deck g1 = dealt2 @ deck g'" "mset dealt2 = mset p2 + mset q2" by blast
  show ?case
  proof (intro exI conjI)
    show "playerHand g' = playerHand g @ (p1 @ p2)" using s1 s2 by simp
    show "dealerHand g' = dealerHand g @ (q1 @ q2)" using s1 s2 by simp
    show "deck g = ((p1 @ q1) @ dealt2) @ deck g'" using s1 s2 by simp
    show "mset ((p1 @ q1) @ dealt2) = mset (p1 @ p2) + mset (q1 @ q2)"
      using s2 by simp
  qed
qed

lemma startNewGame_fields:
  "playerHand (startNewGame random) = take 2 (createDeck random)
   \<and> dealerHand (startNewGame random) = take 2 (drop 2 (createDeck random))
   \<and> deck (startNewGame random) = drop 4 (createDeck random)
   \<and> playerScore (startNewGame random) = calculateHandScore (take 2 (createDeck random))
   \<and> dealerScore (startNewGame random)
       = calculateHandScore (take 2 (drop 2 (createDeck random)))
   \<and> isPlayerTurn (startNewGame random) \<and> \<not> isGameOver (startNewGame random)
   \<and> gameStatus (startNewGame random) = ''active''"
  by (simp add: startNewGame_def dealCards_def Let_def)


text \<open>
  Claim C8. In every state reached from \<open>startNewGame\<close> by a sequence of hits and stands
  none of which raises (every deal is served), the player's hand, the dealer's hand and
  the deck hold 52 cards together, so the deck holds 52 less the number of cards dealt;
  the cards dealt are exactly the front of the shuffled deck, the deck is what remains
  behind them, and along any further such sequence both hands only grow at the end, by
  the cards that leave the front of the deck.
\<close>

theorem card_count_conserved:
  assumes "validRandom random"
    and "play acts1 (startNewGame random) = Inr g1"
    and "play acts2 g1 = Inr g2"
  shows "length (playerHand g2) + length (dealerHand g2) + length (deck g2) = 52
    \<and> length (deck g2) = 52 - (length (playerHand g2) + length (dealerHand g2))
    \<and> (\<exists>dealt. createDeck random = dealt @ deck g2
          \<and> mset dealt = mset (playerHand g2) + mset (dealerHand g2))
    \<and> prefix (playerHand g1) (playerHand g2)
    \<and> prefix (dealerHand g1) (dealerHand g2)
    \<and> (\<exists>p q dealt. playerHand g2 = playerHand g1 @ p \<and> dealerHand g2 = dealerHand g1 @ q
          \<and> deck g1 = dealt @ deck g2 \<and> mset dealt = mset p + mset q)"
proof -
  define D where "D = createDeck random"
  have len: "length D = 52" by (simp add: D_def length_createDeck)
  have start: "playerHand (startNewGame random) = take 2 D"
    "dealerHand (startNewGame random) = take 2 (drop 2 D)"
    "deck (startNewGame random) = drop 4 D"
    by (simp_all add: startNewGame_fields D_def)
  from play_conserves [OF assms(2)] start obtain p1 q1 dealt1 where s1:
    "playerHand g1 = take 2 D @ p1" "dealerHand g1 = take 2 (drop 2 D) @ q1"
    "drop 4 D = dealt1 @ deck g1" "mset dealt1 = mset p1 + mset q1" by auto
  from play_conserves [OF assms(3)] obtain p2 q2 dealt2 where s2:
    "playerHand g2 = playerHand g1 @ p2" "dealerHand g2 = dealerHand g1 @ q2"
    "deck g1 = dealt2 @ deck g2" "mset dealt2 = mset p2 + mset q2" by blast
  have split: "D = take 2 D @ take 2 (drop 2 D) @ drop 4 D"
    by (metis add_2_eq_Suc' append_take_drop_id drop_drop numeral_Bit0 append.assoc)
  have whole: "D = (take 2 D @ take 2 (drop 2 D) @ dealt1 @ dealt2) @ deck g2"
    using split s1(3) s2(3) by simp
  have ms: "mset (take 2 D @ take 2 (drop 2 D) @ dealt1 @ dealt2)
      = mset (playerHand g2) + mset (dealerHand g2)"
    using s1 s2 by simp
  have "length (take 2 D @ take 2 (drop 2 D) @ dealt1 @ dealt2)
      = length (playerHand g2) + length (dealerHand g2)"
    using arg_cong [OF ms, of size] by simp
  with whole len have total:
    "length (playerHand g2) + length (dealerHand g2) + length (deck g2) = 52"
    by (metis length_append)
  have "\<exists>dealt. createDeck random = dealt @ deck g2
      \<and> mset dealt = mset (playerHand g2) + mset (dealerHand g2)"
    using whole ms unfolding D_def by blast
  moreover have "prefix (playerHand g1) (playerHand g2)" "prefix (dealerHand g1) (dealerHand g2)"
    using s2 by simp_all
  moreover have "\<exists>p q dealt. playerHand g2 = playerHand g1 @ p
      \<and> dealerHand g2 = dealerHand g1 @ q
      \<and> deck g1 = dealt @ deck g2 \<and> mset dealt = mset p + mset q"
    using s2 by blast
  ultimately show ?thesis using total by simp
qed

theorem card_count_conserved_witness:
  "\<exists>g1 g2. play [Hit] (startNewGame (\<lambda>i. 0)) = Inr g1 \<and> play [Stand] g1 = Inr g2
     \<and> playerHand g2
         = [Card ''hearts'' ''2'' 2, Card ''hearts'' ''3'' 3, Card ''hearts'' ''6'' 6]
     \<and> dealerHand g2
         = [Card ''hearts'' ''4'' 4, Card ''hearts'' ''5'' 5, Card ''hearts'' ''7'' 7,
            Card ''hearts'' ''8'' 8]
     \<and> gameStatus g2 = ''dealer_bust''
     \<and> length (playerHand g2) + length (dealerHand g2) + length (deck g2) = 52
     \<and> length (deck g2) = 45"
proof -
  have v: "validRandom (\<lambda>i. 0)" by (simp add: validRandom_def)
  have e1: "play [Hit] (startNewGame (\<lambda>i. 0)) =
     Inr \<lparr>deck = drop 5 (createDeck (\<lambda>i. 0)),
          playerHand = [Card ''hearts'' ''2'' 2, Card ''hearts'' ''3'' 3,
                        Card ''hearts'' ''6'' 6],
          dealerHand = [Card ''hearts'' ''4'' 4, Card ''hearts'' ''5'' 5],
          playerScore = 11, dealerScore = 9,
          isPlayerTurn = True, isGameOver = False, gameStatus = ''active''\<rparr>"
    by code_simp
  have e2: "play [Stand]
         \<lparr>deck = drop 5 (createDeck (\<lambda>i. 0)),
          playerHand = [Card ''hearts'' ''2'' 2, Card ''hearts'' ''3'' 3,
                        Card ''hearts'' ''6'' 6],
          dealerHand = [Card ''hearts'' ''4'' 4, Card ''hearts'' ''5'' 5],
          playerScore = 11, dealerScore = 9,
          isPlayerTurn = True, isGameOver = False, gameStatus = ''active''\<rparr> =
     Inr \<lparr>deck = drop 7 (createDeck (\<lambda>i. 0)),
          playerHand = [Card ''hearts'' ''2'' 2, Card ''hearts'' ''3'' 3,
                        Card ''hearts'' ''6'' 6],
          dealerHand = [Card ''hearts'' ''4'' 4, Card ''hearts'' ''5'' 5,
                        Card ''hearts'' ''7'' 7, Card ''hearts'' ''8'' 8],
          playerScore = 11, dealerScore = 24,
          isPlayerTurn = False, isGameOver = True, gameStatus = ''dealer_bust''\<rparr>"
    by code_simp
  from card_count_conserved [OF v e1 e2] e1 e2 show ?thesis
    by (simp add: length_createDeck)
qed

end
